theory Spec2Isabelle
  imports Main "HOL-Library.Sublist"
begin

section \<open>The endpoint scanner \<^verbatim>\<open>scan.py\<close>\<close>

text \<open>
  A shallow embedding of \<^verbatim>\<open>src/scan.py\<close>. A Python \<^verbatim>\<open>str\<close> is a \<^typ>\<open>string\<close>, one
  \<^typ>\<open>char\<close> per code point (so the model covers the code points below 256; slicing,
  padding and \<^verbatim>\<open>replace\<close> count code points, as Python does). A string value that
  \<^verbatim>\<open>json.loads\<close> returns can hold lone surrogates as well, which no decoded text holds.
  Console output, requests and pauses are recorded in an event trace. The standard
  output encodes every text but one with a lone surrogate, as UTF-8 does. The network
  and the two library functions \<^verbatim>\<open>json.loads\<close> and \<^verbatim>\<open>str\<close> are parameters of the model.
\<close>

subsection \<open>Configuration (lines 6-16)\<close>

definition TOKEN :: string where
  "TOKEN = ''JXeWdITivc2N0neAHWYxpriQcRpiiOvF2vJmIhBgnSs''"

definition OPENAPI_URL :: string where
  "OPENAPI_URL = ''https://api.adultdatalink.com/openapi.json''"

definition BASE_URL :: string where
  "BASE_URL = ''https://api.adultdatalink.com''"

definition ESC :: char where
  "ESC = CHR 0x1B"

definition GREEN :: string where
  "GREEN = ESC # ''[92m''"

definition RED :: string where
  "RED = ESC # ''[91m''"

definition YELLOW :: string where
  "YELLOW = ESC # ''[93m''"

definition RESET :: string where
  "RESET = ESC # ''[0m''"

subsection \<open>Python values\<close>

text \<open>
  The values \<^verbatim>\<open>json.loads\<close> returns: \<^verbatim>\<open>None\<close>, \<^verbatim>\<open>bool\<close>, \<^verbatim>\<open>int\<close>, \<^verbatim>\<open>float\<close>, \<^verbatim>\<open>str\<close>,
  \<^verbatim>\<open>list\<close> and \<^verbatim>\<open>dict\<close>. A dict is an association list in insertion order (its keys
  are distinct in Python; no theorem below needs that). A float is a sign, a mantissa
  and a binary exponent, or an infinity, or a NaN. A character of a parsed string is a
  code point below 256 or a lone surrogate \<open>U+D800 + n\<close>, which \<^verbatim>\<open>json.loads\<close> accepts
  in an escape.
\<close>

datatype pyfloat = Finite bool nat int | Infinity bool | NaN

datatype pychar = Chr char | Surrogate nat

datatype json =
    JNull
  | JBool bool
  | JInt int
  | JFloat pyfloat
  | JString "pychar list"
  | JList "json list"
  | JObj "(string \<times> json) list"

text \<open>The string value with the code points of a text.\<close>

definition JStr :: "string \<Rightarrow> json" where
  "JStr s = JString (map Chr s)"

fun is_zero :: "pyfloat \<Rightarrow> bool" where
  "is_zero (Finite s m e) = (m = 0)"
| "is_zero (Infinity s) = False"
| "is_zero NaN = False"

text \<open>Truth value testing, as the operator \<^verbatim>\<open>or\<close> applies it.\<close>

fun truthy :: "json \<Rightarrow> bool" where
  "truthy JNull = False"
| "truthy (JBool b) = b"
| "truthy (JInt n) = (n \<noteq> 0)"
| "truthy (JFloat f) = (\<not> is_zero f)"
| "truthy (JString s) = (s \<noteq> [])"
| "truthy (JList xs) = (xs \<noteq> [])"
| "truthy (JObj kvs) = (kvs \<noteq> [])"

definition py_or :: "json \<Rightarrow> json \<Rightarrow> json" where
  "py_or x y = (if truthy x then x else y)"

text \<open>\<^verbatim>\<open>d.get(k)\<close>: the value, or \<^verbatim>\<open>None\<close> for a missing key.\<close>

definition dict_get :: "(string \<times> json) list \<Rightarrow> string \<Rightarrow> json" where
  "dict_get kvs k = (case map_of kvs k of None \<Rightarrow> JNull | Some v \<Rightarrow> v)"

fun is_list :: "json \<Rightarrow> bool" where
  "is_list (JList xs) = True"
| "is_list v = False"

text \<open>
  The exceptions that nothing in \<^verbatim>\<open>scan.py\<close> catches: attribute and type errors on a
  document of the wrong shape, and an exception raised inside an \<^verbatim>\<open>except\<close> clause
  (with its description).
\<close>

datatype exc = AttributeError | TypeError | Raised string

datatype exit_status = ExitNormal | SysExit nat | Traceback exc

subsection \<open>Strings\<close>

text \<open>
  \<^verbatim>\<open>s.replace(old, new)\<close>: the occurrences of \<open>old\<close> are found from left to right
  and do not overlap. For an empty \<open>old\<close> Python puts \<open>new\<close> before every character
  and at the end.
\<close>

fun replace_from :: "string \<Rightarrow> string \<Rightarrow> string \<Rightarrow> string" where
  "replace_from old new [] = []"
| "replace_from old new (c # cs) =
     (if prefix old (c # cs) then new @ replace_from old new (drop (length old - 1) cs)
      else c # replace_from old new cs)"

definition replace :: "string \<Rightarrow> string \<Rightarrow> string \<Rightarrow> string" where
  "replace old new s =
     (if old = [] then new @ concat (map (\<lambda>c. c # new) s) else replace_from old new s)"

text \<open>The format specification \<^verbatim>\<open><40\<close>: left-aligned, padded with spaces to width 40.\<close>

definition ljust :: "nat \<Rightarrow> string \<Rightarrow> string" where
  "ljust n s = s @ replicate (n - length s) CHR '' ''"

text \<open>Decimal rendering of integers, as an f-string does it.\<close>

definition digit_char :: "nat \<Rightarrow> char" where
  "digit_char d = ''0123456789'' ! d"

fun str_nat :: "nat \<Rightarrow> string" where
  "str_nat n = (if n < 10 then [digit_char n] else str_nat (n div 10) @ [digit_char (n mod 10)])"

definition str_int :: "int \<Rightarrow> string" where
  "str_int i = (if i < 0 then CHR ''-'' # str_nat (nat (- i)) else str_nat (nat i))"

subsection \<open>The trace and the network\<close>

record request =
  url :: string
  headers :: "(string \<times> string) list"

text \<open>
  \<open>Stdout s\<close> is one call of \<^verbatim>\<open>print\<close> writing \<open>s\<close> (its end included), \<open>Urlopen r\<close>
  one call of \<^verbatim>\<open>urllib.request.urlopen\<close>, \<open>Sleep ms\<close> one call of \<^verbatim>\<open>time.sleep\<close>.
\<close>

datatype event = Stdout string | Urlopen request | Sleep nat

definition println :: "string \<Rightarrow> event" where
  "println s = Stdout (s @ [CHR 0x0A])"

text \<open>
  \<^verbatim>\<open>print\<close> encodes the whole text before it writes: a text with a lone surrogate
  raises \<^verbatim>\<open>UnicodeEncodeError\<close> and nothing of it is written; any other text is written
  as it is.
\<close>

fun is_chr :: "pychar \<Rightarrow> bool" where
  "is_chr (Chr c) = True"
| "is_chr (Surrogate n) = False"

definition encodable :: "pychar list \<Rightarrow> bool" where
  "encodable t = list_all is_chr t"

definition written :: "pychar list \<Rightarrow> string" where
  "written t = concat (map (\<lambda>c. case c of Chr x \<Rightarrow> [x] | Surrogate n \<Rightarrow> []) t)"

text \<open>
  What \<^verbatim>\<open>read().decode()\<close> gives: the text, or an exception (a connection that
  breaks, bytes that are not UTF-8) with its description.
\<close>

datatype body_read = Body string | Unreadable string

text \<open>
  What \<^verbatim>\<open>urlopen\<close> gives: a response with its status code; an \<^verbatim>\<open>HTTPError\<close> with its
  code, its description and its body; or any other exception with its description.
  The network is a function of a state \<open>'w\<close> of the world, returned updated.
\<close>

datatype net_outcome =
    Response int body_read
  | HTTPError int string body_read
  | OtherException string

type_synonym 'w network = "'w \<Rightarrow> request \<Rightarrow> net_outcome \<times> 'w"

subsection \<open>\<^verbatim>\<open>get_json\<close> (lines 18-25)\<close>

text \<open>
  \<open>loads\<close> is \<^verbatim>\<open>json.loads\<close>: the parsed value, or the description of the exception it
  raises. The result is the parsed document, or the exit code of \<^verbatim>\<open>sys.exit\<close>.
\<close>

definition get_json ::
  "'w network \<Rightarrow> (string \<Rightarrow> string + json) \<Rightarrow> 'w \<Rightarrow> string \<Rightarrow> event list \<times> (nat + json) \<times> 'w" where
  "get_json urlopen loads w u =
     (let req = \<lparr>url = u, headers = [(''User-Agent'', ''Mozilla/5.0'')]\<rparr>;
          (out, w') = urlopen w req;
          parsed = (case out of
                      Response code (Body b) \<Rightarrow> loads b
                    | Response code (Unreadable e) \<Rightarrow> Inl e
                    | HTTPError code e b \<Rightarrow> Inl e
                    | OtherException e \<Rightarrow> Inl e)
      in case parsed of
           Inl e \<Rightarrow>
             ([Urlopen req, println (RED @ ''Failed to download OpenAPI spec: '' @ e @ RESET)],
              Inl 1, w')
         | Inr doc \<Rightarrow> ([Urlopen req], Inr doc, w'))"

subsection \<open>\<^verbatim>\<open>fetch_api\<close> (lines 27-55)\<close>

text \<open>Lines 29-35: the path parameters are filled in, one \<^verbatim>\<open>replace\<close> after the other.\<close>

definition fill_path :: "string \<Rightarrow> string" where
  "fill_path path0 =
     (let path = replace ''{video_id}'' ''12345'' path0;
          path = replace ''{id}'' ''1'' path;
          path = replace ''{category}'' ''anal'' path;
          path = replace ''{pornstar_name}'' ''mia-khalifa'' path;
          path = replace ''{username}'' ''admin'' path;
          path = replace ''{keyword}'' ''teen'' path;
          path = replace ''{q}'' ''latest'' path
      in path)"

text \<open>
  Lines 38-55. An exception of \<^verbatim>\<open>read().decode()\<close> on a response is caught by
  \<^verbatim>\<open>except Exception\<close>; the same exception on the body of an \<^verbatim>\<open>HTTPError\<close> is raised
  inside the \<^verbatim>\<open>except\<close> clause of line 52, where no clause catches it.
\<close>

definition fetch_api :: "'w network \<Rightarrow> 'w \<Rightarrow> string \<Rightarrow> request \<times> (exc + int \<times> string) \<times> 'w" where
  "fetch_api urlopen w path0 =
     (let path = fill_path path0;
          full_url = BASE_URL @ path @ ''?q=latest&page=1&sort=date'';
          req = \<lparr>url = full_url,
                 headers = [(''Authorization'', ''Bearer '' @ TOKEN),
                            (''Accept'', ''application/json''),
                            (''User-Agent'', ''AutoScanner/1.0'')]\<rparr>;
          (out, w') = urlopen w req
      in (req,
          (case out of
             Response code (Body b) \<Rightarrow> Inr (code, b)
           | Response code (Unreadable e) \<Rightarrow> Inr (0, e)
           | HTTPError code d (Body b) \<Rightarrow> Inr (code, b)
           | HTTPError code d (Unreadable e) \<Rightarrow> Inl (Raised e)
           | OtherException e \<Rightarrow> Inr (0, e)),
          w'))"

subsection \<open>\<^verbatim>\<open>main\<close> (lines 57-102)\<close>

text \<open>
  Lines 86-94. \<open>py_str\<close> is the builtin \<^verbatim>\<open>str\<close> on a parsed value (it escapes the
  surrogates of the strings inside a list or a dict, so its result can be printed); an
  f-string renders a \<^verbatim>\<open>str\<close> as it is and every other value as \<^verbatim>\<open>str\<close> does. The bare
  \<^verbatim>\<open>except\<close> catches the exception of \<^verbatim>\<open>json.loads\<close>, the \<^verbatim>\<open>AttributeError\<close> of \<^verbatim>\<open>get\<close> on a
  value that is not a dict, and the \<^verbatim>\<open>UnicodeEncodeError\<close> of the \<^verbatim>\<open>print\<close> of line 92,
  which is inside the \<^verbatim>\<open>try\<close>; in each case it prints the line of line 94.
\<close>

fun format_value :: "(json \<Rightarrow> string) \<Rightarrow> json \<Rightarrow> pychar list" where
  "format_value py_str (JString s) = s"
| "format_value py_str v = map Chr (py_str v)"

definition hint_line :: "(json \<Rightarrow> string) \<Rightarrow> string + json \<Rightarrow> string \<Rightarrow> string" where
  "hint_line py_str parsed body =
     (case parsed of
        Inr (JObj err_json) \<Rightarrow>
          (let msg = py_or (py_or (dict_get err_json ''detail'') (dict_get err_json ''message''))
                           (JStr ''Unknown error'');
               msg = (if is_list msg then JStr (py_str msg) else msg);
               line = map Chr ''       -> Hint: '' @ format_value py_str msg
           in if encodable line then written line
              else ''       -> Raw: '' @ take 50 body @ ''...'')
      | _ \<Rightarrow> ''       -> Raw: '' @ take 50 body @ ''...'')"

text \<open>Lines 77-96: what is printed for a probe result.\<close>

definition report :: "(string \<Rightarrow> string + json) \<Rightarrow> (json \<Rightarrow> string) \<Rightarrow> int \<Rightarrow> string \<Rightarrow> event list" where
  "report loads py_str status body =
     (if status = 200 then [println (GREEN @ ''SUCCESS (200)'' @ RESET)]
      else if status = 404 then [println (RED @ ''NOT FOUND (404)'' @ RESET)]
      else if status \<in> set [400, 422] then
        [println (YELLOW @ ''PARAM ERROR ('' @ str_int status @ '')'' @ RESET),
         println (hint_line py_str (loads body) body)]
      else [println (RED @ ''FAILED ('' @ str_int status @ '')'' @ RESET)])"

text \<open>
  Line 70, \<^verbatim>\<open>"get" in methods\<close>: a key of a dict, an element of a list, a substring of
  a string; a \<^verbatim>\<open>TypeError\<close> on any other value.
\<close>

fun contains_get :: "json \<Rightarrow> exc + bool" where
  "contains_get (JObj kvs) = Inr (''get'' \<in> set (map fst kvs))"
| "contains_get (JList xs) = Inr (JStr ''get'' \<in> set xs)"
| "contains_get (JString s) = Inr (sublist (map Chr ''get'') s)"
| "contains_get v = Inl TypeError"

definition test_line :: "string \<Rightarrow> string" where
  "test_line path = ''[TEST] '' @ ljust 40 path @ '' ... ''"

text \<open>
  Lines 68-99, the loop over \<^verbatim>\<open>paths.items()\<close>: the trace, the exception that ended the
  loop (if one did) and the state of the world.
\<close>

fun scan ::
  "'w network \<Rightarrow> (string \<Rightarrow> string + json) \<Rightarrow> (json \<Rightarrow> string) \<Rightarrow> 'w \<Rightarrow> (string \<times> json) list
     \<Rightarrow> event list \<times> exc option \<times> 'w" where
  "scan urlopen loads py_str w [] = ([], None, w)"
| "scan urlopen loads py_str w ((path, methods) # rest) =
     (case contains_get methods of
        Inl e \<Rightarrow> ([], Some e, w)
      | Inr False \<Rightarrow> scan urlopen loads py_str w rest
      | Inr True \<Rightarrow>
          (case fetch_api urlopen w path of
             (req, Inl e, w') \<Rightarrow> ([Stdout (test_line path), Urlopen req], Some e, w')
           | (req, Inr (status, body), w') \<Rightarrow>
               (case scan urlopen loads py_str w' rest of
                  (evs, x, w'') \<Rightarrow>
                    (Stdout (test_line path) # Urlopen req # report loads py_str status body
                       @ Sleep 200 # evs, x, w''))))"

text \<open>\<^verbatim>\<open>len(paths)\<close>: defined on a dict, a list and a string.\<close>

fun py_len :: "json \<Rightarrow> exc + nat" where
  "py_len (JObj kvs) = Inr (length kvs)"
| "py_len (JList xs) = Inr (length xs)"
| "py_len (JString s) = Inr (length s)"
| "py_len v = Inl TypeError"

definition sep :: string where
  "sep = replicate 50 CHR ''-''"

definition main ::
  "'w network \<Rightarrow> (string \<Rightarrow> string + json) \<Rightarrow> (json \<Rightarrow> string) \<Rightarrow> 'w
     \<Rightarrow> event list \<times> exit_status \<times> 'w" where
  "main urlopen loads py_str w =
     (case get_json urlopen loads w OPENAPI_URL of
        (evs1, r, w1) \<Rightarrow>
          (let pre = [println sep, println ''1. Downloading OpenAPI Spec...''] @ evs1
           in case r of
                Inl code \<Rightarrow> (pre, SysExit code, w1)
              | Inr (JObj spec) \<Rightarrow>
                  (let paths = (case map_of spec ''paths'' of None \<Rightarrow> JObj [] | Some p \<Rightarrow> p)
                   in case py_len paths of
                        Inl e \<Rightarrow> (pre, Traceback e, w1)
                      | Inr n \<Rightarrow>
                          (let hdr = pre @ [println (''   Found '' @ str_nat n @ '' paths definition.''),
                                            println sep,
                                            println ''2. Starting Scan...'',
                                            println sep]
                           in case paths of
                                JObj items \<Rightarrow>
                                  (case scan urlopen loads py_str w1 items of
                                     (evs, Some e, w2) \<Rightarrow> (hdr @ evs, Traceback e, w2)
                                   | (evs, None, w2) \<Rightarrow>
                                       (hdr @ evs @ [println sep, println ''Scan Complete.''],
                                        ExitNormal, w2))
                              | _ \<Rightarrow> (hdr, Traceback AttributeError, w1)))
              | Inr _ \<Rightarrow> (pre, Traceback AttributeError, w1)))"

section \<open>Notions used in the statements\<close>

text \<open>The requests of a trace, in order.\<close>

definition requests :: "event list \<Rightarrow> request list" where
  "requests evs = [r. Urlopen r \<leftarrow> evs]"

text \<open>The report lines of a trace: what \<^verbatim>\<open>print\<close> wrote that starts with \<^verbatim>\<open>[TEST]\<close>.\<close>

definition test_lines :: "event list \<Rightarrow> string list" where
  "test_lines evs = [s. Stdout s \<leftarrow> evs, prefix ''[TEST] '' s]"

text \<open>The paths whose operations contain \<^verbatim>\<open>get\<close>, in the order of the mapping.\<close>

definition get_paths :: "(string \<times> json) list \<Rightarrow> string list" where
  "get_paths items = map fst (filter (\<lambda>(path, methods). contains_get methods = Inr True) items)"

definition probe_url :: "string \<Rightarrow> string" where
  "probe_url path = BASE_URL @ fill_path path @ ''?q=latest&page=1&sort=date''"

definition spec_request :: request where
  "spec_request = \<lparr>url = OPENAPI_URL, headers = [(''User-Agent'', ''Mozilla/5.0'')]\<rparr>"

fun is_dict :: "json \<Rightarrow> bool" where
  "is_dict (JObj kvs) = True"
| "is_dict v = False"

text \<open>A document whose operations are mappings, as the data model has it.\<close>

definition well_formed :: "(string \<times> json) list \<Rightarrow> bool" where
  "well_formed items = list_all (\<lambda>(path, methods). is_dict methods) items"

text \<open>A network on which the body of an \<^verbatim>\<open>HTTPError\<close> can always be read and decoded.\<close>

definition readable :: "'w network \<Rightarrow> bool" where
  "readable urlopen =
     (\<forall>w r. case fst (urlopen w r) of HTTPError c d (Unreadable e) \<Rightarrow> False | _ \<Rightarrow> True)"

text \<open>
  The table of lines 29-35, in the order of the calls. A placeholder is an opening
  brace, a name without braces and a closing brace.
\<close>

definition known_placeholders :: "(string \<times> string) list" where
  "known_placeholders =
     [(''{video_id}'', ''12345''), (''{id}'', ''1''), (''{category}'', ''anal''),
      (''{pornstar_name}'', ''mia-khalifa''), (''{username}'', ''admin''),
      (''{keyword}'', ''teen''), (''{q}'', ''latest'')]"

definition fill_with :: "(string \<times> string) list \<Rightarrow> string \<Rightarrow> string" where
  "fill_with tbl path = foldl (\<lambda>s (old, new). replace old new s) path tbl"

definition braceless :: "string \<Rightarrow> bool" where
  "braceless s = (CHR ''{'' \<notin> set s \<and> CHR ''}'' \<notin> set s)"

definition is_token :: "string \<Rightarrow> bool" where
  "is_token t =
     (case t of [] \<Rightarrow> False
      | c # cs \<Rightarrow> c = CHR ''{'' \<and> cs \<noteq> [] \<and> last cs = CHR ''}'' \<and> braceless (butlast cs))"

text \<open>
  A table whose keys are distinct placeholders and whose values have no brace and occur
  in no key: then no replacement makes or breaks an occurrence of another key.
\<close>

definition well_separated :: "(string \<times> string) list \<Rightarrow> bool" where
  "well_separated tbl =
     (list_all (\<lambda>(old, new). is_token old \<and> braceless new
                  \<and> list_all (\<lambda>(old', new'). \<not> sublist new old') tbl) tbl
      \<and> distinct (map fst tbl))"

text \<open>
  The message of an error document as the specification words it: the \<^verbatim>\<open>detail\<close>
  field, the \<^verbatim>\<open>message\<close> field when \<^verbatim>\<open>detail\<close> is absent, the literal when both are.
\<close>

definition spec_message :: "(string \<times> json) list \<Rightarrow> json" where
  "spec_message err_json =
     (case map_of err_json ''detail'' of
        Some d \<Rightarrow> d
      | None \<Rightarrow> (case map_of err_json ''message'' of Some m \<Rightarrow> m | None \<Rightarrow> JStr ''Unknown error''))"

section \<open>Example runs\<close>

text \<open>Documents, with the text they are parsed from.\<close>

definition two_paths_text :: string where
  "two_paths_text = ''{\"paths\": {\"/a\": {\"get\": {}}, \"/b\": {\"get\": {}}}}''"

definition two_paths :: "(string \<times> json) list" where
  "two_paths = [(''/a'', JObj [(''get'', JObj [])]), (''/b'', JObj [(''get'', JObj [])])]"

definition videos_text :: string where
  "videos_text = ''{\"paths\": {\"/videos/{video_id}\": {\"get\": {}}}}''"

definition no_paths_text :: string where
  "no_paths_text = ''{\"openapi\": \"3.1.0\"}''"

definition detail_empty_text :: string where
  "detail_empty_text = ''{\"detail\": \"\", \"message\": \"m\"}''"

definition detail_empty :: "(string \<times> json) list" where
  "detail_empty = [(''detail'', JStr ''''), (''message'', JStr ''m'')]"

text \<open>A body whose \<^verbatim>\<open>detail\<close> is the escape of the lone surrogate \<open>U+D800\<close>.\<close>

definition detail_surrogate_text :: string where
  "detail_surrogate_text = ''{\"detail\": \"'' @ [CHR 0x5C] @ ''ud800\"}''"

definition detail_surrogate :: "(string \<times> json) list" where
  "detail_surrogate = [(''detail'', JString [Surrogate 0])]"

text \<open>\<^verbatim>\<open>json.loads\<close> on these texts and on some error bodies.\<close>

definition loads_example :: "string \<Rightarrow> string + json" where
  "loads_example b =
     (if b = two_paths_text then Inr (JObj [(''paths'', JObj two_paths)])
      else if b = videos_text then
        Inr (JObj [(''paths'', JObj [(''/videos/{video_id}'', JObj [(''get'', JObj [])])])])
      else if b = no_paths_text then Inr (JObj [(''openapi'', JStr ''3.1.0'')])
      else if b = detail_empty_text then Inr (JObj detail_empty)
      else if b = ''{\"detail\": \"x is required\"}'' then
        Inr (JObj [(''detail'', JStr ''x is required'')])
      else if b = ''{\"detail\": [1, 2]}'' then Inr (JObj [(''detail'', JList [JInt 1, JInt 2])])
      else if b = ''{\"message\": \"bad page\"}'' then Inr (JObj [(''message'', JStr ''bad page'')])
      else if b = ''{}'' then Inr (JObj [])
      else if b = ''[1]'' then Inr (JList [JInt 1])
      else if b = ''[]'' then Inr (JList [])
      else if b = detail_surrogate_text then Inr (JObj detail_surrogate)
      else Inl ''Expecting value: line 1 column 1 (char 0)'')"

text \<open>\<^verbatim>\<open>str\<close> on the one list of these examples.\<close>

definition str_example :: "json \<Rightarrow> string" where
  "str_example v = (if v = JList [JInt 1, JInt 2] then ''[1, 2]'' else ''?'')"

text \<open>
  Networks, as functions of the URL. On \<open>net_two_paths\<close> the probe of \<^verbatim>\<open>/a\<close> is
  answered with status 500 and a body that is not UTF-8.
\<close>

definition net_two_paths :: "unit network" where
  "net_two_paths w r =
     (if url r = OPENAPI_URL then Response 200 (Body two_paths_text)
      else if url r = BASE_URL @ ''/a?q=latest&page=1&sort=date'' then
        HTTPError 500 ''HTTP Error 500: Internal Server Error''
          (Unreadable ''utf-8 codec cannot decode byte 0xff in position 0'')
      else Response 200 (Body ''[]''), w)"

definition net_videos :: "unit network" where
  "net_videos w r =
     (if url r = OPENAPI_URL then Response 200 (Body videos_text)
      else Response 200 (Body ''[]''), w)"

definition net_no_paths :: "unit network" where
  "net_no_paths w r = (Response 200 (Body no_paths_text), w)"

definition net_refusing :: "unit network" where
  "net_refusing w r = (OtherException ''<urlopen error [Errno 111] Connection refused>'', w)"


section \<open>Printing\<close>

lemma encodable_simps [simp]:
  "encodable []"
  "encodable (Chr c # t) = encodable t"
  "encodable (Surrogate n # t) = False"
  "encodable (map Chr s)"
  "encodable (t @ t') = (encodable t \<and> encodable t')"
  by (auto simp: encodable_def list_all_iff)

lemma written_text [simp]: "written (map Chr s) = s"
  by (induction s) (simp_all add: written_def)

lemma written_simps [simp]:
  "written [] = []"
  "written (Chr c # t) = c # written t"
  "written (t @ t') = written t @ written t'"
  by (simp_all add: written_def)

section \<open>The loop\<close>

lemma requests_simps [simp]:
  "requests [] = []"
  "requests (Stdout s # evs) = requests evs"
  "requests (Urlopen r # evs) = r # requests evs"
  "requests (Sleep n # evs) = requests evs"
  "requests (xs @ ys) = requests xs @ requests ys"
  by (simp_all add: requests_def)

lemma test_lines_simps [simp]:
  "test_lines [] = []"
  "test_lines (Stdout s # evs) = (if prefix ''[TEST] '' s then s # test_lines evs else test_lines evs)"
  "test_lines (Urlopen r # evs) = test_lines evs"
  "test_lines (Sleep n # evs) = test_lines evs"
  "test_lines (xs @ ys) = test_lines xs @ test_lines ys"
  by (simp_all add: test_lines_def)

lemma requests_report [simp]: "requests (report loads py_str status body) = []"
  by (simp add: report_def println_def)

lemma test_lines_report [simp]: "test_lines (report loads py_str status body) = []"
  by (simp add: report_def println_def hint_line_def GREEN_def RED_def YELLOW_def ESC_def Let_def
      split: sum.split json.split)

lemma prefix_test_line [simp]: "prefix ''[TEST] '' (test_line path)"
  by (simp add: test_line_def)

lemma fetch_api_url: "url (fst (fetch_api urlopen w path)) = probe_url path"
  by (simp add: fetch_api_def probe_url_def Let_def split: prod.split)

lemma get_paths_simps [simp]:
  "get_paths [] = []"
  "get_paths ((p, m) # rest) = (if contains_get m = Inr True then p # get_paths rest else get_paths rest)"
  by (simp_all add: get_paths_def)

lemma scan_requests:
  "prefix (map url (requests (fst (scan urlopen loads py_str w items)))) (map probe_url (get_paths items))"
proof (induction items arbitrary: w)
  case Nil
  show ?case by simp
next
  case (Cons pm rest)
  obtain p m where pm: "pm = (p, m)" by (cases pm)
  show ?case
  proof (cases "contains_get m")
    case (Inl e)
    then show ?thesis by (simp add: pm)
  next
    case (Inr b)
    show ?thesis
    proof (cases b)
      case False
      with Inr Cons.IH show ?thesis by (simp add: pm)
    next
      case True
      obtain req res w' where f: "fetch_api urlopen w p = (req, res, w')"
        by (cases "fetch_api urlopen w p")
      have u: "url req = probe_url p"
        using fetch_api_url [of urlopen w p] f by simp
      show ?thesis
      proof (cases res)
        case (Inl e)
        with Inr True f u show ?thesis by (simp add: pm)
      next
        case (Inr sb)
        obtain status body where sb: "sb = (status, body)" by (cases sb)
        obtain evs x w'' where s: "scan urlopen loads py_str w' rest = (evs, x, w'')"
          by (cases "scan urlopen loads py_str w' rest")
        from Cons.IH [of w'] s have "prefix (map url (requests evs)) (map probe_url (get_paths rest))"
          by simp
        with \<open>contains_get m = Inr b\<close> True f u Inr sb s show ?thesis by (simp add: pm)
      qed
    qed
  qed
qed

lemma scan_test_lines:
  "prefix (test_lines (fst (scan urlopen loads py_str w items))) (map test_line (get_paths items))"
proof (induction items arbitrary: w)
  case Nil
  show ?case by simp
next
  case (Cons pm rest)
  obtain p m where pm: "pm = (p, m)" by (cases pm)
  show ?case
  proof (cases "contains_get m")
    case (Inl e)
    then show ?thesis by (simp add: pm)
  next
    case (Inr b)
    show ?thesis
    proof (cases b)
      case False
      with Inr Cons.IH show ?thesis by (simp add: pm)
    next
      case True
      obtain req res w' where f: "fetch_api urlopen w p = (req, res, w')"
        by (cases "fetch_api urlopen w p")
      show ?thesis
      proof (cases res)
        case (Inl e)
        with Inr True f show ?thesis by (simp add: pm)
      next
        case (Inr sb)
        obtain status body where sb: "sb = (status, body)" by (cases sb)
        obtain evs x w'' where s: "scan urlopen loads py_str w' rest = (evs, x, w'')"
          by (cases "scan urlopen loads py_str w' rest")
        from Cons.IH [of w'] s have "prefix (test_lines evs) (map test_line (get_paths rest))"
          by simp
        with \<open>contains_get m = Inr b\<close> True f Inr sb s show ?thesis by (simp add: pm)
      qed
    qed
  qed
qed

text \<open>When no exception ends the loop, every path with \<^verbatim>\<open>get\<close> is reported and requested.\<close>

lemma scan_complete_lines:
  "fst (snd (scan urlopen loads py_str w items)) = None \<Longrightarrow>
     test_lines (fst (scan urlopen loads py_str w items)) = map test_line (get_paths items)
     \<and> map url (requests (fst (scan urlopen loads py_str w items))) = map probe_url (get_paths items)"
proof (induction items arbitrary: w)
  case Nil
  show ?case by simp
next
  case (Cons pm rest)
  obtain p m where pm: "pm = (p, m)" by (cases pm)
  show ?case
  proof (cases "contains_get m")
    case (Inl e)
    with Cons.prems show ?thesis by (simp add: pm)
  next
    case (Inr b)
    show ?thesis
    proof (cases b)
      case False
      with Inr Cons show ?thesis by (simp add: pm)
    next
      case True
      obtain req res w' where f: "fetch_api urlopen w p = (req, res, w')"
        by (cases "fetch_api urlopen w p")
      have u: "url req = probe_url p"
        using fetch_api_url [of urlopen w p] f by simp
      show ?thesis
      proof (cases res)
        case (Inl e)
        with Cons.prems Inr True f show ?thesis by (simp add: pm)
      next
        case (Inr sb)
        obtain status body where sb: "sb = (status, body)" by (cases sb)
        obtain evs x w'' where s: "scan urlopen loads py_str w' rest = (evs, x, w'')"
          by (cases "scan urlopen loads py_str w' rest")
        from Cons.prems \<open>contains_get m = Inr b\<close> True f Inr sb s have "x = None" by (simp add: pm)
        with Cons.IH [of w'] s
        have "test_lines evs = map test_line (get_paths rest)
              \<and> map url (requests evs) = map probe_url (get_paths rest)"
          by simp
        with \<open>contains_get m = Inr b\<close> True f u Inr sb s show ?thesis by (simp add: pm)
      qed
    qed
  qed
qed

lemma fetch_api_readable:
  "readable urlopen \<Longrightarrow> \<exists>status body. fst (snd (fetch_api urlopen w path)) = Inr (status, body)"
  unfolding readable_def
proof -
  assume a: "\<forall>w r. case fst (urlopen w r) of HTTPError c d (Unreadable e) \<Rightarrow> False | _ \<Rightarrow> True"
  define req where "req = fst (fetch_api urlopen w path)"
  have out: "case fst (urlopen w req) of HTTPError c d (Unreadable e) \<Rightarrow> False | _ \<Rightarrow> True"
    using a by blast
  show ?thesis
    using out unfolding req_def
    by (auto simp: fetch_api_def Let_def split: prod.splits net_outcome.splits body_read.splits)
qed

lemma scan_runs_to_completion:
  "readable urlopen \<Longrightarrow> well_formed items \<Longrightarrow> fst (snd (scan urlopen loads py_str w items)) = None"
proof (induction items arbitrary: w)
  case Nil
  show ?case by simp
next
  case (Cons pm rest)
  obtain p m where pm: "pm = (p, m)" by (cases pm)
  from Cons.prems obtain kvs where m: "m = JObj kvs"
    by (cases m) (auto simp: well_formed_def pm)
  from Cons.prems have wf: "well_formed rest" by (simp add: well_formed_def)
  obtain status body where "fst (snd (fetch_api urlopen w p)) = Inr (status, body)"
    using fetch_api_readable [OF Cons.prems(1)] by blast
  then obtain req w' where f: "fetch_api urlopen w p = (req, Inr (status, body), w')"
    by (cases "fetch_api urlopen w p") auto
  from Cons.IH [OF Cons.prems(1) wf, of w'] Cons.IH [OF Cons.prems(1) wf, of w]
  show ?case by (cases "scan urlopen loads py_str w' rest") (auto simp: pm m f split: bool.split)
qed

section \<open>Replacement and placeholders\<close>

lemma is_token_iff: "is_token t \<longleftrightarrow> (\<exists>n. t = CHR ''{'' # n @ ''}'' \<and> braceless n)"
proof
  assume "is_token t"
  then obtain cs where t: "t = CHR ''{'' # cs" and cs: "cs \<noteq> []" "last cs = CHR ''}''" "braceless (butlast cs)"
    by (auto simp: is_token_def split: list.splits)
  from cs have "cs = butlast cs @ ''}''" by (metis append_butlast_last_id)
  with t cs show "\<exists>n. t = CHR ''{'' # n @ ''}'' \<and> braceless n" by blast
next
  assume "\<exists>n. t = CHR ''{'' # n @ ''}'' \<and> braceless n"
  then show "is_token t" by (auto simp: is_token_def)
qed

lemma replace_from_append:
  assumes "\<And>v. suffix v a \<Longrightarrow> v \<noteq> [] \<Longrightarrow> prefix old (v @ b) \<Longrightarrow> prefix old v"
  shows "replace_from old new (a @ b) = replace_from old new a @ replace_from old new b"
  using assms
proof (induction old new a rule: replace_from.induct)
  case (1 old new)
  show ?case by simp
next
  case (2 old new c cs)
  show ?case
  proof (cases "prefix old (c # cs)")
    case True
    then have len: "length old - 1 \<le> length cs"
      using prefix_length_le by fastforce
    have p: "prefix old ((c # cs) @ b)"
      using True by (rule prefix_prefix)
    have "replace_from old new (drop (length old - 1) cs @ b)
            = replace_from old new (drop (length old - 1) cs) @ replace_from old new b"
    proof (rule "2.IH"(1) [OF True])
      fix v
      assume v: "suffix v (drop (length old - 1) cs)" "v \<noteq> []" "prefix old (v @ b)"
      from v(1) have "suffix v (c # cs)"
        by (meson suffix_drop suffix_order.trans suffix_ConsI)
      with v show "prefix old v" using "2.prems" by blast
    qed
    with True p len show ?thesis by simp
  next
    case False
    then have np: "\<not> prefix old ((c # cs) @ b)"
      using "2.prems" [of "c # cs"] by auto
    have "replace_from old new (cs @ b) = replace_from old new cs @ replace_from old new b"
    proof (rule "2.IH"(2) [OF False])
      fix v
      assume v: "suffix v cs" "v \<noteq> []" "prefix old (v @ b)"
      from v(1) have "suffix v (c # cs)" by (rule suffix_ConsI)
      with v show "prefix old v" using "2.prems" by blast
    qed
    with False np show ?thesis by simp
  qed
qed

lemma replace_from_skip:
  "old \<noteq> [] \<Longrightarrow> hd old \<notin> set q \<Longrightarrow> replace_from old new (q @ b) = q @ replace_from old new b"
proof (induction q)
  case Nil
  show ?case by simp
next
  case (Cons c q)
  then have "\<not> prefix old (c # q @ b)"
    by (cases old) auto
  with Cons show ?case by simp
qed

lemma replace_from_absent:
  "old \<noteq> [] \<Longrightarrow> \<not> sublist old s \<Longrightarrow> replace_from old new s = s"
proof (induction s)
  case Nil
  show ?case by simp
next
  case (Cons c s)
  then have "\<not> prefix old (c # s)" "\<not> sublist old s"
    by (auto simp: sublist_Cons_right)
  with Cons show ?case by simp
qed

lemma replace_from_self:
  "old \<noteq> [] \<Longrightarrow> replace_from old new (old @ b) = new @ replace_from old new b"
  by (cases old) simp_all


lemma token_facts:
  assumes "is_token t"
  shows "t \<noteq> []" "hd t = CHR ''{''" "CHR ''{'' \<notin> set (tl t)"
    "last t = CHR ''}''" "CHR ''}'' \<notin> set (butlast t)"
  using assms by (auto simp: is_token_iff braceless_def butlast_append)

lemma replace_from_before_brace:
  assumes "is_token old"
  shows "replace_from old new (a @ CHR ''{'' # b)
           = replace_from old new a @ replace_from old new (CHR ''{'' # b)"
proof (rule replace_from_append)
  fix v
  assume v: "suffix v a" "v \<noteq> []" "prefix old (v @ CHR ''{'' # b)"
  from v(3) consider "prefix old v" | us where "old = v @ us" "prefix us (CHR ''{'' # b)"
    by (auto simp: prefix_append)
  then show "prefix old v"
  proof cases
    case 1
    then show ?thesis .
  next
    case 2
    show ?thesis
    proof (cases us)
      case Nil
      with 2 show ?thesis by simp
    next
      case (Cons u us')
      with 2 have "u = CHR ''{''" by simp
      with 2 Cons v(2) have "CHR ''{'' \<in> set (tl old)" by (cases v) auto
      with token_facts(3) [OF assms] show ?thesis by simp
    qed
  qed
qed

lemma replace_from_after_brace:
  assumes "is_token old"
  shows "replace_from old new ((a @ ''}'') @ b)
           = replace_from old new (a @ ''}'') @ replace_from old new b"
proof (rule replace_from_append)
  fix v
  assume v: "suffix v (a @ ''}'')" "v \<noteq> []" "prefix old (v @ b)"
  from v(1,2) have l: "last v = CHR ''}''"
    by (auto simp: suffix_def) (metis last_appendR last_snoc)
  from v(3) have "prefix old v \<or> (\<exists>us. old = v @ us \<and> prefix us b)"
    by (simp add: prefix_append)
  then show "prefix old v"
  proof (elim disjE exE conjE)
    fix us
    assume us: "old = v @ us" "prefix us b"
    show ?thesis
    proof (cases "us = []")
      case True
      with us show ?thesis by simp
    next
      case False
      with us have "butlast old = v @ butlast us" by (simp add: butlast_append)
      with l v(2) have "CHR ''}'' \<in> set (butlast old)" by (metis Un_iff last_in_set set_append)
      with token_facts(5) [OF assms] show ?thesis by simp
    qed
  qed
qed

lemma replace_from_around:
  assumes "is_token old" and "braceless sub" and "\<not> sublist sub old"
  shows "replace_from old new (a @ sub @ b)
           = replace_from old new a @ sub @ replace_from old new b"
proof -
  have "replace_from old new (a @ sub @ b)
          = replace_from old new a @ replace_from old new (sub @ b)"
  proof (rule replace_from_append)
    fix v
    assume v: "suffix v a" "v \<noteq> []" "prefix old (v @ sub @ b)"
    from v(3) have "prefix old v \<or> (\<exists>us. old = v @ us \<and> prefix us sub)
        \<or> (\<exists>us. old = v @ sub @ us)"
      by (auto simp: prefix_append)
    then show "prefix old v"
    proof (elim disjE exE conjE)
      fix us
      assume us: "old = v @ us" "prefix us sub"
      show ?thesis
      proof (cases "us = []")
        case True
        with us show ?thesis by simp
      next
        case False
        with us have "last old \<in> set sub"
          by (metis last_appendR last_in_set set_mono_prefix subsetD)
        with token_facts(4) [OF assms(1)] assms(2) show ?thesis by (simp add: braceless_def)
      qed
    next
      fix us
      assume "old = v @ sub @ us"
      then have "sublist sub old" by (simp add: sublist_def) blast
      with assms(3) show ?thesis by simp
    qed
  qed
  moreover have "replace_from old new (sub @ b) = sub @ replace_from old new b"
    using token_facts(1,2) [OF assms(1)] assms(2)
    by (intro replace_from_skip) (auto simp: braceless_def)
  ultimately show ?thesis by simp
qed

lemma token_not_inside:
  assumes "is_token old" and "is_token t" and "t \<noteq> old"
  shows "\<not> sublist old t"
proof
  assume "sublist old t"
  then obtain ps ss where t: "t = ps @ old @ ss" by (auto simp: sublist_def)
  have "ps = []"
  proof (rule ccontr)
    assume "ps \<noteq> []"
    with t token_facts(1,2) [OF assms(1)] have "CHR ''{'' \<in> set (tl t)"
      by (cases ps; cases old) auto
    with token_facts(3) [OF assms(2)] show False by simp
  qed
  moreover have "ss = []"
  proof (rule ccontr)
    assume "ss \<noteq> []"
    with t have "butlast t = ps @ old @ butlast ss" by (simp add: butlast_append)
    with token_facts(1,4) [OF assms(1)] have "CHR ''}'' \<in> set (butlast t)"
      by (metis Un_iff last_in_set set_append)
    with token_facts(5) [OF assms(2)] show False by simp
  qed
  ultimately show False using t assms(3) by simp
qed

lemma replace_keeps_token:
  assumes "is_token old" and "is_token t" and "t \<noteq> old"
  shows "replace old new (a @ t @ b) = replace old new a @ t @ replace old new b"
proof -
  from assms(2) obtain n where t: "t = CHR ''{'' # n @ ''}''"
    by (auto simp: is_token_iff)
  have "replace_from old new (a @ t @ b) = replace_from old new a @ replace_from old new (t @ b)"
    using replace_from_before_brace [OF assms(1), of new a "n @ ''}'' @ b"] by (simp add: t)
  also have "replace_from old new (t @ b) = replace_from old new t @ replace_from old new b"
    using replace_from_after_brace [OF assms(1), of new "CHR ''{'' # n" b] by (simp add: t)
  also have "replace_from old new t = t"
    using token_facts(1) [OF assms(1)] token_not_inside [OF assms] by (rule replace_from_absent)
  finally show ?thesis
    using token_facts(1) [OF assms(1)] by (simp add: replace_def)
qed

lemma replace_fills_token:
  assumes "is_token old"
  shows "replace old new (a @ old @ b) = replace old new a @ new @ replace old new b"
proof -
  from assms obtain n where t: "old = CHR ''{'' # n @ ''}''"
    by (auto simp: is_token_iff)
  have "replace_from old new (a @ old @ b) = replace_from old new a @ replace_from old new (old @ b)"
    using replace_from_before_brace [OF assms, of new a "n @ ''}'' @ b"] by (simp add: t)
  then show ?thesis
    using token_facts(1) [OF assms] by (simp add: replace_def replace_from_self)
qed

lemma replace_keeps_value:
  assumes "is_token old" and "braceless sub" and "\<not> sublist sub old"
  shows "replace old new (a @ sub @ b) = replace old new a @ sub @ replace old new b"
  using replace_from_around [OF assms] token_facts(1) [OF assms(1)] by (simp add: replace_def)


lemma fill_with_Cons [simp]:
  "fill_with ((old, new) # tbl) path = fill_with tbl (replace old new path)"
  by (simp add: fill_with_def)

lemma fill_with_Nil [simp]: "fill_with [] path = path"
  by (simp add: fill_with_def)

lemma fill_path_table: "fill_path path = fill_with known_placeholders path"
  by (simp add: fill_path_def known_placeholders_def)

lemma fill_with_keeps_token:
  "list_all (\<lambda>(old, new). is_token old \<and> old \<noteq> t) tbl \<Longrightarrow> is_token t \<Longrightarrow>
     fill_with tbl (a @ t @ b) = fill_with tbl a @ t @ fill_with tbl b"
proof (induction tbl arbitrary: a b)
  case Nil
  show ?case by simp
next
  case (Cons entry tbl)
  obtain old new where e: "entry = (old, new)" by (cases entry)
  from Cons.prems have "is_token old" "t \<noteq> old" "list_all (\<lambda>(old, new). is_token old \<and> old \<noteq> t) tbl"
    by (auto simp: e)
  with Cons.IH Cons.prems(2) show ?case
    by (simp add: e replace_keeps_token)
qed

lemma fill_with_keeps_value:
  "list_all (\<lambda>(old, new). is_token old \<and> \<not> sublist sub old) tbl \<Longrightarrow> braceless sub \<Longrightarrow>
     fill_with tbl (a @ sub @ b) = fill_with tbl a @ sub @ fill_with tbl b"
proof (induction tbl arbitrary: a b)
  case Nil
  show ?case by simp
next
  case (Cons entry tbl)
  obtain old new where e: "entry = (old, new)" by (cases entry)
  from Cons.prems have "is_token old" "\<not> sublist sub old"
    "list_all (\<lambda>(old, new). is_token old \<and> \<not> sublist sub old) tbl"
    by (auto simp: e)
  with Cons.IH Cons.prems(2) show ?case
    by (simp add: e replace_keeps_value)
qed

lemma fill_with_absent:
  "list_all (\<lambda>(old, new). old \<noteq> [] \<and> \<not> sublist old path) tbl \<Longrightarrow> fill_with tbl path = path"
proof (induction tbl)
  case Nil
  show ?case by simp
next
  case (Cons entry tbl)
  obtain old new where e: "entry = (old, new)" by (cases entry)
  from Cons show ?case
    by (simp add: e replace_def replace_from_absent)
qed

lemma well_separated_entry:
  assumes "well_separated tbl" and "(tok, sub) \<in> set tbl"
  shows "is_token tok" "braceless sub"
    "list_all (\<lambda>(old, new). is_token old \<and> \<not> sublist sub old) tbl"
proof -
  from assms have *: "is_token tok \<and> braceless sub
      \<and> list_all (\<lambda>(old', new'). \<not> sublist sub old') tbl"
    by (auto simp: well_separated_def list_all_iff)
  then show "is_token tok" "braceless sub" by simp_all
  from assms(1) have "list_all (\<lambda>(old, new). is_token old) tbl"
    by (auto simp: well_separated_def list_all_iff)
  with * show "list_all (\<lambda>(old, new). is_token old \<and> \<not> sublist sub old) tbl"
    by (auto simp: list_all_iff)
qed

lemma fill_with_fills_token:
  "well_separated (pre @ tbl) \<Longrightarrow> (tok, sub) \<in> set tbl \<Longrightarrow>
     fill_with tbl (a @ tok @ b) = fill_with tbl a @ sub @ fill_with tbl b"
proof (induction tbl arbitrary: pre a b)
  case Nil
  then show ?case by simp
next
  case (Cons entry tbl)
  obtain old new where e: "entry = (old, new)" by (cases entry)
  from Cons.prems(1) have ws: "well_separated ((pre @ [entry]) @ tbl)" by simp
  have old: "is_token old"
    using well_separated_entry(1) [OF Cons.prems(1), of old new] by (simp add: e)
  show ?case
  proof (cases "(tok, sub) = (old, new)")
    case True
    from Cons.prems(2) have m: "(tok, sub) \<in> set (pre @ entry # tbl)" by auto
    have "list_all (\<lambda>(old, new). is_token old \<and> \<not> sublist sub old) (pre @ entry # tbl)"
      by (rule well_separated_entry(3) [OF Cons.prems(1) m])
    moreover have "braceless sub"
      by (rule well_separated_entry(2) [OF Cons.prems(1) m])
    ultimately have "fill_with tbl (replace old new a @ sub @ replace old new b)
                 = fill_with tbl (replace old new a) @ sub @ fill_with tbl (replace old new b)"
      by (intro fill_with_keeps_value) simp_all
    with True old show ?thesis
      by (simp add: e replace_fills_token)
  next
    case False
    with Cons.prems(2) have mem: "(tok, sub) \<in> set tbl" by (auto simp: e)
    from Cons.prems(1) have "distinct (map fst (pre @ entry # tbl))"
      unfolding well_separated_def by (rule conjunct2)
    then have "old \<notin> fst ` set tbl" by (simp add: e)
    with mem have "tok \<noteq> old" by force
    moreover from mem have "(tok, sub) \<in> set (pre @ entry # tbl)" by simp
    then have "is_token tok"
      by (rule well_separated_entry(1) [OF Cons.prems(1)])
    ultimately have "replace old new (a @ tok @ b) = replace old new a @ tok @ replace old new b"
      using old by (intro replace_keeps_token)
    with Cons.IH [OF ws mem] show ?thesis by (simp add: e)
  qed
qed

lemma fill_with_idem:
  assumes "well_separated tbl"
  shows "fill_with tbl (fill_with tbl path) = fill_with tbl path"
proof (induction path rule: length_induct)
  case (1 path)
  show ?case
  proof (cases "list_all (\<lambda>(old, new). old \<noteq> [] \<and> \<not> sublist old path) tbl")
    case True
    then show ?thesis by (simp add: fill_with_absent)
  next
    case False
    then obtain tok sub where mem: "(tok, sub) \<in> set tbl" and "tok = [] \<or> sublist tok path"
      by (auto simp: list_all_iff)
    moreover have tok: "is_token tok"
      by (rule well_separated_entry(1) [OF assms mem])
    ultimately obtain a b where path: "path = a @ tok @ b" and "tok \<noteq> []"
      using token_facts(1) by (auto simp: sublist_def)
    then have len: "length a < length path" "length b < length path" by simp_all
    have ws: "well_separated ([] @ tbl)" using assms by simp
    have fills: "fill_with tbl path = fill_with tbl a @ sub @ fill_with tbl b"
      unfolding path by (rule fill_with_fills_token [OF ws mem])
    have "fill_with tbl (fill_with tbl path)
            = fill_with tbl (fill_with tbl a @ sub @ fill_with tbl b)"
      by (simp only: fills)
    also have "\<dots> = fill_with tbl (fill_with tbl a) @ sub @ fill_with tbl (fill_with tbl b)"
      by (rule fill_with_keeps_value [OF well_separated_entry(3,2) [OF assms mem]])
    also have "fill_with tbl (fill_with tbl a) = fill_with tbl a"
      using 1 len(1) by blast
    also have "fill_with tbl (fill_with tbl b) = fill_with tbl b"
      using 1 len(2) by blast
    finally show ?thesis by (simp only: fills)
  qed
qed

lemma known_tokens: "list_all (\<lambda>(old, new). is_token old \<and> braceless new) known_placeholders"
  by (simp add: known_placeholders_def is_token_def braceless_def)

lemma known_distinct: "distinct (map fst known_placeholders)"
  by (simp add: known_placeholders_def)

lemma known_apart:
  "list_all (\<lambda>(old, new). list_all (\<lambda>(old', new'). \<not> sublist new old') known_placeholders)
     known_placeholders"
  by (simp add: known_placeholders_def sublist_code(3))

lemma known_placeholders_separated: "well_separated known_placeholders"
  using known_tokens known_distinct known_apart
  by (simp add: well_separated_def list_all_iff) blast

section \<open>The claims\<close>

lemma sep_head: "sep = CHR ''-'' # replicate 49 CHR ''-''"
  by (simp add: sep_def replicate_Suc [symmetric])

lemma str_int_examples:
  "str_int 0 = ''0''" "str_int 200 = ''200''" "str_int 400 = ''400''" "str_int 404 = ''404''"
  "str_int 422 = ''422''" "str_int 500 = ''500''"
  by (simp_all add: str_int_def digit_char_def)

text \<open>
  Claim C1. For every probe result, the category that is reported is a function of the
  status code alone: 200 gives SUCCESS, 404 gives NOT FOUND, 400 and 422 give PARAM
  ERROR, and every other status, the 0 of a transport failure included, gives FAILED
  with the status printed.
\<close>

theorem report_category:
  "(status = 200 \<longrightarrow>
      hd (report loads py_str status body) = println (GREEN @ ''SUCCESS (200)'' @ RESET))
   \<and> (status = 404 \<longrightarrow>
      hd (report loads py_str status body) = println (RED @ ''NOT FOUND (404)'' @ RESET))
   \<and> (status = 400 \<or> status = 422 \<longrightarrow>
      hd (report loads py_str status body)
        = println (YELLOW @ ''PARAM ERROR ('' @ str_int status @ '')'' @ RESET))
   \<and> (status \<notin> {200, 404, 400, 422} \<longrightarrow>
      hd (report loads py_str status body)
        = println (RED @ ''FAILED ('' @ str_int status @ '')'' @ RESET))
   \<and> hd (report loads py_str status body) = hd (report loads' py_str' status body')"
  by (simp add: report_def)

theorem report_category_witness:
  "hd (report loads_example str_example 200 ''[]'') = println (GREEN @ ''SUCCESS (200)'' @ RESET)
   \<and> hd (report loads_example str_example 404 ''gone'') = println (RED @ ''NOT FOUND (404)'' @ RESET)
   \<and> hd (report loads_example str_example 400 ''{}'') = println (YELLOW @ ''PARAM ERROR (400)'' @ RESET)
   \<and> hd (report loads_example str_example 422 ''{}'') = println (YELLOW @ ''PARAM ERROR (422)'' @ RESET)
   \<and> hd (report loads_example str_example 0 ''timed out'') = println (RED @ ''FAILED (0)'' @ RESET)
   \<and> hd (report loads_example str_example 500 ''oops'') = println (RED @ ''FAILED (500)'' @ RESET)"
  using report_category [where status = 200 and loads = loads_example and py_str = str_example and body = "''[]''"]
    report_category [where status = 404 and loads = loads_example and py_str = str_example and body = "''gone''"]
    report_category [where status = 400 and loads = loads_example and py_str = str_example and body = "''{}''"]
    report_category [where status = 422 and loads = loads_example and py_str = str_example and body = "''{}''"]
    report_category [where status = 0 and loads = loads_example and py_str = str_example and body = "''timed out''"]
    report_category [where status = 500 and loads = loads_example and py_str = str_example and body = "''oops''"]
  by (simp add: str_int_examples)

text \<open>
  Claim C2. One report line for every path whose operations contain \<^verbatim>\<open>get\<close>, in the
  order of the mapping, and none for the others. The lemmas \<open>scan_test_lines\<close> and
  \<open>scan_complete_lines\<close> show that no other path is reported, that the order is kept
  and that every such path is reported when no exception ends the loop. On the
  document with the paths \<^verbatim>\<open>/a\<close> and \<^verbatim>\<open>/b\<close>, both with \<^verbatim>\<open>get\<close>, when the probe of \<^verbatim>\<open>/a\<close>
  is answered with status 500 and a body that cannot be decoded, the run reports
  \<^verbatim>\<open>/a\<close> only.
\<close>

theorem report_lines_cut_short:
  "get_paths two_paths = [''/a'', ''/b'']
   \<and> test_lines (fst (main net_two_paths loads_example py_str ())) = [test_line ''/a'']"
  by (simp add: main_def get_json_def net_two_paths_def loads_example_def two_paths_def
      two_paths_text_def videos_text_def no_paths_text_def detail_empty_text_def
      fetch_api_def fill_path_def replace_def OPENAPI_URL_def BASE_URL_def println_def
      sep_head)

text \<open>
  Claim C3, as amended. For a 400 or 422 response whose body parses to an object, the
  value of the hint is the value of \<^verbatim>\<open>detail\<close> when that value is true in the sense of
  Python (present and not null, false, zero or empty), else the value of \<^verbatim>\<open>message\<close>
  when that is true, else the literal \<^verbatim>\<open>Unknown error\<close>; a string is printed as it is and
  a list as \<^verbatim>\<open>str\<close> renders it. When the value is a string that the standard output
  cannot encode (it holds a lone surrogate), the \<^verbatim>\<open>print\<close> of line 92 raises inside the
  \<^verbatim>\<open>try\<close> and the line printed is the one of line 94: the first 50 characters of the
  body followed by three dots. That line is printed as well when the body does not
  parse. As the claim was stated (the value of \<^verbatim>\<open>detail\<close> whenever the field is present)
  it fails on the body of \<open>detail_empty_text\<close>, where \<^verbatim>\<open>detail\<close> is the empty string and
  the message is printed, and on the body of \<open>detail_surrogate_text\<close>, where \<^verbatim>\<open>detail\<close>
  is a lone surrogate and the body is printed.
\<close>

theorem hint_detail_counterexample:
  "loads_example detail_empty_text = Inr (JObj detail_empty)
   \<and> spec_message detail_empty = JStr ''''
   \<and> last (report loads_example str_example 422 detail_empty_text) = println ''       -> Hint: m''
   \<and> last (report loads_example str_example 422 detail_empty_text)
       \<noteq> println (''       -> Hint: ''
                    @ written (format_value str_example (spec_message detail_empty)))
   \<and> loads_example detail_surrogate_text = Inr (JObj detail_surrogate)
   \<and> spec_message detail_surrogate = JString [Surrogate 0]
   \<and> last (report loads_example str_example 422 detail_surrogate_text)
       = println (''       -> Raw: '' @ detail_surrogate_text @ ''...'')"
  by (simp add: report_def hint_line_def spec_message_def dict_get_def py_or_def println_def
      loads_example_def detail_empty_def detail_empty_text_def two_paths_text_def
      videos_text_def no_paths_text_def detail_surrogate_def detail_surrogate_text_def
      JStr_def)

theorem param_error_hint:
  assumes "status = 400 \<or> status = 422"
  shows "(loads body = Inr (JObj err) \<and> truthy (dict_get err ''detail'')
            \<and> encodable (format_value py_str (dict_get err ''detail'')) \<longrightarrow>
            last (report loads py_str status body)
              = println (''       -> Hint: ''
                           @ written (format_value py_str (dict_get err ''detail''))))
       \<and> (loads body = Inr (JObj err) \<and> \<not> truthy (dict_get err ''detail'')
            \<and> truthy (dict_get err ''message'')
            \<and> encodable (format_value py_str (dict_get err ''message'')) \<longrightarrow>
            last (report loads py_str status body)
              = println (''       -> Hint: ''
                           @ written (format_value py_str (dict_get err ''message''))))
       \<and> (loads body = Inr (JObj err) \<and> \<not> truthy (dict_get err ''detail'')
            \<and> \<not> truthy (dict_get err ''message'') \<longrightarrow>
            last (report loads py_str status body) = println ''       -> Hint: Unknown error'')
       \<and> (loads body = Inr (JObj err) \<and> truthy (dict_get err ''detail'')
            \<and> \<not> encodable (format_value py_str (dict_get err ''detail'')) \<longrightarrow>
            last (report loads py_str status body)
              = println (''       -> Raw: '' @ take 50 body @ ''...''))
       \<and> (loads body = Inr (JObj err) \<and> \<not> truthy (dict_get err ''detail'')
            \<and> truthy (dict_get err ''message'')
            \<and> \<not> encodable (format_value py_str (dict_get err ''message'')) \<longrightarrow>
            last (report loads py_str status body)
              = println (''       -> Raw: '' @ take 50 body @ ''...''))
       \<and> (loads body = Inl e \<longrightarrow>
            last (report loads py_str status body)
              = println (''       -> Raw: '' @ take 50 body @ ''...''))
       \<and> format_value py_str (JList xs) = map Chr (py_str (JList xs))
       \<and> format_value py_str (JStr s) = map Chr s
       \<and> format_value py_str (JString t) = t
       \<and> encodable (map Chr s) \<and> written (map Chr s) = s
       \<and> \<not> encodable (t @ Surrogate n # t')"
proof -
  have r: "last (report loads py_str status body) = println (hint_line py_str (loads body) body)"
    using assms by (auto simp: report_def)
  have fmt: "format_value py_str (if is_list v then JStr (py_str v) else v) = format_value py_str v" for v
    by (cases v) (simp_all add: JStr_def)
  show ?thesis
    unfolding r by (simp add: hint_line_def py_or_def Let_def fmt JStr_def)
qed

theorem param_error_hint_witness:
  "last (report loads_example str_example 422 ''{\"detail\": \"x is required\"}'')
     = println ''       -> Hint: x is required''
   \<and> last (report loads_example str_example 422 ''{\"detail\": [1, 2]}'')
     = println ''       -> Hint: [1, 2]''
   \<and> last (report loads_example str_example 400 ''{\"message\": \"bad page\"}'')
     = println ''       -> Hint: bad page''
   \<and> last (report loads_example str_example 400 ''{}'') = println ''       -> Hint: Unknown error''
   \<and> last (report loads_example str_example 422 detail_surrogate_text)
     = println (''       -> Raw: '' @ detail_surrogate_text @ ''...'')
   \<and> last (report loads_example str_example 422 ''not json'') = println ''       -> Raw: not json...''"
  using
    param_error_hint [where status = 422 and loads = loads_example and py_str = str_example
      and body = "''{\"detail\": \"x is required\"}''" and err = "[(''detail'', JStr ''x is required'')]"]
    param_error_hint [where status = 422 and loads = loads_example and py_str = str_example
      and body = "''{\"detail\": [1, 2]}''" and err = "[(''detail'', JList [JInt 1, JInt 2])]"]
    param_error_hint [where status = 400 and loads = loads_example and py_str = str_example
      and body = "''{\"message\": \"bad page\"}''" and err = "[(''message'', JStr ''bad page'')]"]
    param_error_hint [where status = 400 and loads = loads_example and py_str = str_example
      and body = "''{}''" and err = "[]"]
    param_error_hint [where status = 422 and loads = loads_example and py_str = str_example
      and body = detail_surrogate_text and err = detail_surrogate]
    param_error_hint [where status = 422 and loads = loads_example and py_str = str_example
      and body = "''not json''" and e = "''Expecting value: line 1 column 1 (char 0)''"]
  by (simp add: loads_example_def str_example_def dict_get_def two_paths_text_def
      videos_text_def no_paths_text_def detail_empty_text_def detail_surrogate_text_def
      detail_surrogate_def JStr_def)

text \<open>
  Claim C4. Filling a path replaces every occurrence of a placeholder of the table by
  its value, two occurrences alike; filling a filled path changes nothing; and a
  placeholder that is not in the table stays as it is, in the path and in the URL.
  By \<open>fill_path_table\<close> the table is the one of lines 29-35.
\<close>

theorem fill_path_placeholders:
  "((tok, sub) \<in> set known_placeholders \<longrightarrow>
      fill_path (a @ tok @ b) = fill_path a @ sub @ fill_path b
      \<and> fill_path (a @ tok @ b @ tok @ c) = fill_path a @ sub @ fill_path b @ sub @ fill_path c)
   \<and> fill_path (fill_path path) = fill_path path
   \<and> (braceless name \<and> ''{'' @ name @ ''}'' \<notin> fst ` set known_placeholders \<longrightarrow>
      fill_path (a @ ''{'' @ name @ ''}'' @ b) = fill_path a @ ''{'' @ name @ ''}'' @ fill_path b
      \<and> url (fst (fetch_api urlopen w (a @ ''{'' @ name @ ''}'' @ b)))
          = BASE_URL @ fill_path a @ ''{'' @ name @ ''}'' @ fill_path b
              @ ''?q=latest&page=1&sort=date'')"
proof (intro conjI impI)
  have ws: "well_separated ([] @ known_placeholders)"
    using known_placeholders_separated by simp
  {
    fix x y
    assume "(tok, sub) \<in> set known_placeholders"
    then have "fill_path (x @ tok @ y) = fill_path x @ sub @ fill_path y"
      unfolding fill_path_table by (rule fill_with_fills_token [OF ws])
  }
  note known = this
  {
    assume mem: "(tok, sub) \<in> set known_placeholders"
    show "fill_path (a @ tok @ b) = fill_path a @ sub @ fill_path b"
      by (rule known [OF mem])
    have "fill_path (a @ tok @ (b @ tok @ c)) = fill_path a @ sub @ fill_path (b @ tok @ c)"
      by (rule known [OF mem])
    also have "fill_path (b @ tok @ c) = fill_path b @ sub @ fill_path c"
      by (rule known [OF mem])
    finally show "fill_path (a @ tok @ b @ tok @ c)
        = fill_path a @ sub @ fill_path b @ sub @ fill_path c" .
  }
  show "fill_path (fill_path path) = fill_path path"
    unfolding fill_path_table by (rule fill_with_idem [OF known_placeholders_separated])
  {
    assume h: "braceless name \<and> ''{'' @ name @ ''}'' \<notin> fst ` set known_placeholders"
    define t where "t = CHR ''{'' # name @ ''}''"
    from h have t: "is_token t"
      unfolding t_def is_token_iff by blast
    from h have nt: "t \<notin> fst ` set known_placeholders"
      by (simp add: t_def)
    have "is_token old \<and> old \<noteq> t" if m: "(old, new) \<in> set known_placeholders" for old new
    proof
      from known_tokens m show "is_token old" by (auto simp: list_all_iff)
      from m have "old \<in> fst ` set known_placeholders" by force
      with nt show "old \<noteq> t" by blast
    qed
    then have "list_all (\<lambda>(old, new). is_token old \<and> old \<noteq> t) known_placeholders"
      by (auto simp: list_all_iff)
    then have "fill_with known_placeholders (a @ t @ b)
        = fill_with known_placeholders a @ t @ fill_with known_placeholders b"
      using t by (rule fill_with_keeps_token)
    then show kept: "fill_path (a @ ''{'' @ name @ ''}'' @ b)
        = fill_path a @ ''{'' @ name @ ''}'' @ fill_path b"
      by (simp add: fill_path_table t_def)
    show "url (fst (fetch_api urlopen w (a @ ''{'' @ name @ ''}'' @ b)))
        = BASE_URL @ fill_path a @ ''{'' @ name @ ''}'' @ fill_path b
            @ ''?q=latest&page=1&sort=date''"
      unfolding fetch_api_url probe_url_def kept by simp
  }
qed

theorem fill_path_placeholders_witness:
  "(''{video_id}'', ''12345'') \<in> set known_placeholders
   \<and> fill_path (''/videos/'' @ ''{video_id}'' @ ''/related/'' @ ''{video_id}'' @ ''/x'')
       = ''/videos/12345/related/12345/x''
   \<and> fill_path (fill_path ''/search/{keyword}/{q}'') = ''/search/teen/latest''
   \<and> braceless ''user_id''
   \<and> ''{'' @ ''user_id'' @ ''}'' \<notin> fst ` set known_placeholders
   \<and> fill_path (''/users/'' @ ''{'' @ ''user_id'' @ ''}'' @ ''/posts/{id}'')
       = ''/users/{user_id}/posts/1''"
  using fill_path_placeholders [where tok = "''{video_id}''" and sub = "''12345''"
      and a = "''/users/''" and b = "''/posts/{id}''" and c = "''/x''"
      and path = "''/search/{keyword}/{q}''" and name = "''user_id''"
      and urlopen = net_videos and w = "()"]
  by (simp add: known_placeholders_def braceless_def fill_path_def replace_def)

text \<open>
  Claim C5. The request of a probe goes to the base URL followed by the filled path
  and the fixed query string, for every path that is probed; the template
  \<^verbatim>\<open>/videos/{video_id}\<close> with a \<^verbatim>\<open>get\<close> operation gives one request, to
  \<^verbatim>\<open>/videos/12345?q=latest&page=1&sort=date\<close> on the base URL, and on status 200 one
  report line with SUCCESS.
\<close>

theorem probe_request_url:
  "url (fst (fetch_api urlopen w path)) = BASE_URL @ fill_path path @ ''?q=latest&page=1&sort=date''
   \<and> prefix (map url (requests (fst (scan urlopen loads py_str w items))))
        (map (\<lambda>p. BASE_URL @ fill_path p @ ''?q=latest&page=1&sort=date'') (get_paths items))
   \<and> map url (requests (fst (main net_videos loads_example py_str ())))
       = [OPENAPI_URL, ''https://api.adultdatalink.com/videos/12345?q=latest&page=1&sort=date'']
   \<and> [s. Stdout s \<leftarrow> fst (main net_videos loads_example py_str ()), prefix ''[TEST] '' s \<or> prefix [ESC] s]
       = [test_line ''/videos/{video_id}'', GREEN @ ''SUCCESS (200)'' @ RESET @ [CHR 0x0A]]"
proof (intro conjI)
  show "url (fst (fetch_api urlopen w path)) = BASE_URL @ fill_path path @ ''?q=latest&page=1&sort=date''"
    by (simp add: fetch_api_url probe_url_def)
  show "prefix (map url (requests (fst (scan urlopen loads py_str w items))))
        (map (\<lambda>p. BASE_URL @ fill_path p @ ''?q=latest&page=1&sort=date'') (get_paths items))"
    using scan_requests [of urlopen loads py_str w items] by (simp add: probe_url_def [abs_def])
  have run: "fst (main net_videos loads_example py_str ())
      = [println sep, println ''1. Downloading OpenAPI Spec...'', Urlopen spec_request,
         println ''   Found 1 paths definition.'', println sep, println ''2. Starting Scan...'',
         println sep, Stdout (test_line ''/videos/{video_id}''),
         Urlopen (fst (fetch_api net_videos () ''/videos/{video_id}'')),
         println (GREEN @ ''SUCCESS (200)'' @ RESET), Sleep 200,
         println sep, println ''Scan Complete.'']"
    by (simp add: main_def get_json_def net_videos_def loads_example_def two_paths_text_def
        videos_text_def fetch_api_def fill_path_def replace_def OPENAPI_URL_def BASE_URL_def
        spec_request_def report_def digit_char_def)
  show "map url (requests (fst (main net_videos loads_example py_str ())))
       = [OPENAPI_URL, ''https://api.adultdatalink.com/videos/12345?q=latest&page=1&sort=date'']"
    unfolding run
    by (simp add: println_def spec_request_def fetch_api_url probe_url_def fill_path_def
        replace_def BASE_URL_def)
  show "[s. Stdout s \<leftarrow> fst (main net_videos loads_example py_str ()), prefix ''[TEST] '' s \<or> prefix [ESC] s]
       = [test_line ''/videos/{video_id}'', GREEN @ ''SUCCESS (200)'' @ RESET @ [CHR 0x0A]]"
    unfolding run
    by (simp add: println_def sep_head GREEN_def ESC_def test_line_def)
qed

text \<open>
  Claim C6. A probe returns a status and a body in every case. It does for a response,
  for an \<^verbatim>\<open>HTTPError\<close> whose body can be read (\<open>fetch_api_readable\<close>) and for every
  other exception of \<^verbatim>\<open>urlopen\<close>. For an \<^verbatim>\<open>HTTPError\<close> whose body cannot be read or
  decoded, line 53 raises inside the \<^verbatim>\<open>except\<close> clause and \<^verbatim>\<open>fetch_api\<close> returns nothing,
  while the same failure on a response gives status 0 (line 54).
\<close>

theorem fetch_api_error_body_raises:
  "fst (snd (fetch_api net_two_paths () ''/a''))
     = Inl (Raised ''utf-8 codec cannot decode byte 0xff in position 0'')
   \<and> fst (snd (fetch_api (\<lambda>w r. (HTTPError code d (Unreadable e), w)) w path)) = Inl (Raised e)
   \<and> fst (snd (fetch_api (\<lambda>w r. (Response code (Unreadable e), w)) w path)) = Inr (0, e)
   \<and> fst (snd (fetch_api (\<lambda>w r. (HTTPError code d (Body b), w)) w path)) = Inr (code, b)
   \<and> fst (snd (fetch_api (\<lambda>w r. (Response code (Body b), w)) w path)) = Inr (code, b)
   \<and> fst (snd (fetch_api (\<lambda>w r. (OtherException e, w)) w path)) = Inr (0, e)"
proof (intro conjI)
  show "fst (snd (fetch_api net_two_paths () ''/a''))
      = Inl (Raised ''utf-8 codec cannot decode byte 0xff in position 0'')"
    by (simp add: fetch_api_def net_two_paths_def fill_path_def replace_def OPENAPI_URL_def
        BASE_URL_def)
qed (simp_all add: fetch_api_def)

text \<open>
  Claim C7. When the document cannot be fetched or parsed (an exception of the
  transport, an \<^verbatim>\<open>HTTPError\<close> for a status that is not 2xx, a body that cannot be read,
  a text that \<^verbatim>\<open>json.loads\<close> rejects), the run prints the one message that the download
  failed, with the description of the exception, makes no request but the one for the
  document and exits with code 1.
\<close>

theorem spec_failure_fatal:
  assumes "urlopen w spec_request = (out, w')"
    and "out = OtherException e \<or> out = HTTPError code e b \<or> out = Response code (Unreadable e)
         \<or> (out = Response code (Body t) \<and> loads t = Inl e)"
  shows "main urlopen loads py_str w
           = ([println sep, println ''1. Downloading OpenAPI Spec...'', Urlopen spec_request,
               println (RED @ ''Failed to download OpenAPI spec: '' @ e @ RESET)],
              SysExit 1, w')"
  using assms by (auto simp: main_def get_json_def spec_request_def)

theorem spec_failure_fatal_witness:
  "net_refusing () spec_request
     = (OtherException ''<urlopen error [Errno 111] Connection refused>'', ())
   \<and> main net_refusing loads_example str_example ()
     = ([println sep, println ''1. Downloading OpenAPI Spec...'', Urlopen spec_request,
         println (RED @ ''Failed to download OpenAPI spec: ''
                    @ ''<urlopen error [Errno 111] Connection refused>'' @ RESET)],
        SysExit 1, ())"
  using spec_failure_fatal [where urlopen = net_refusing and w = "()" and w' = "()"
      and out = "OtherException ''<urlopen error [Errno 111] Connection refused>''"
      and e = "''<urlopen error [Errno 111] Connection refused>''"
      and loads = loads_example and py_str = str_example]
  by (simp add: net_refusing_def)

text \<open>
  Claim C8. No failure of a probe ends the scan. It holds on a network whose error
  bodies can be read (\<open>scan_runs_to_completion\<close>). On the document with the paths
  \<^verbatim>\<open>/a\<close> and \<^verbatim>\<open>/b\<close>, when the probe of \<^verbatim>\<open>/a\<close> is answered with status 500 and a body that
  cannot be decoded, the exception of line 53 ends the run: \<^verbatim>\<open>/b\<close> is never requested
  and the last line is never printed.
\<close>

theorem scan_aborted_by_probe:
  "fst (snd (main net_two_paths loads_example py_str ()))
     = Traceback (Raised ''utf-8 codec cannot decode byte 0xff in position 0'')
   \<and> map url (requests (fst (main net_two_paths loads_example py_str ())))
       = [OPENAPI_URL, probe_url ''/a'']
   \<and> println ''Scan Complete.'' \<notin> set (fst (main net_two_paths loads_example py_str ()))"
  by (simp add: main_def get_json_def net_two_paths_def loads_example_def two_paths_def
      two_paths_text_def videos_text_def no_paths_text_def detail_empty_text_def
      fetch_api_def fill_path_def replace_def OPENAPI_URL_def BASE_URL_def println_def
      probe_url_def sep_head test_line_def)

text \<open>
  Claim C9. When the document is an object without the key \<^verbatim>\<open>paths\<close>, the run reports
  0 paths, probes nothing and ends normally with the last line.
\<close>

theorem no_paths_key:
  assumes "urlopen w spec_request = (Response code (Body t), w')"
    and "loads t = Inr (JObj spec)"
    and "map_of spec ''paths'' = None"
  shows "main urlopen loads py_str w
           = ([println sep, println ''1. Downloading OpenAPI Spec...'', Urlopen spec_request,
               println ''   Found 0 paths definition.'', println sep,
               println ''2. Starting Scan...'', println sep,
               println sep, println ''Scan Complete.''],
              ExitNormal, w')"
  using assms by (simp add: main_def get_json_def spec_request_def digit_char_def)

theorem no_paths_key_witness:
  "net_no_paths () spec_request = (Response 200 (Body no_paths_text), ())
   \<and> loads_example no_paths_text = Inr (JObj [(''openapi'', JStr ''3.1.0'')])
   \<and> map_of [(''openapi'', JStr ''3.1.0'')] ''paths'' = None
   \<and> main net_no_paths loads_example str_example ()
     = ([println sep, println ''1. Downloading OpenAPI Spec...'', Urlopen spec_request,
         println ''   Found 0 paths definition.'', println sep,
         println ''2. Starting Scan...'', println sep,
         println sep, println ''Scan Complete.''],
        ExitNormal, ())"
  using no_paths_key [where urlopen = net_no_paths and w = "()" and w' = "()" and code = 200
      and t = no_paths_text and loads = loads_example
      and spec = "[(''openapi'', JStr ''3.1.0'')]" and py_str = str_example]
  by (simp add: net_no_paths_def loads_example_def no_paths_text_def two_paths_text_def
      videos_text_def)

text \<open>
  Claim C10. For a 400 or 422 response whose body is valid JSON but not an object, the
  hint is the first 50 characters of the body followed by three dots, as for a body
  that does not parse, and not \<^verbatim>\<open>Unknown error\<close>.
\<close>

theorem non_object_body_raw:
  assumes "status = 400 \<or> status = 422" and "loads body = Inr v" and "\<not> is_dict v"
  shows "report loads py_str status body
           = [println (YELLOW @ ''PARAM ERROR ('' @ str_int status @ '')'' @ RESET),
              println (''       -> Raw: '' @ take 50 body @ ''...'')]"
  using assms by (cases v) (auto simp: report_def hint_line_def)

theorem non_object_body_raw_witness:
  "loads_example ''[1]'' = Inr (JList [JInt 1])
   \<and> \<not> is_dict (JList [JInt 1])
   \<and> report loads_example str_example 422 ''[1]''
     = [println (YELLOW @ ''PARAM ERROR (422)'' @ RESET), println ''       -> Raw: [1]...'']"
  using non_object_body_raw [where status = 422 and loads = loads_example and body = "''[1]''"
      and v = "JList [JInt 1]" and py_str = str_example]
  by (simp add: loads_example_def str_int_examples two_paths_text_def videos_text_def
      no_paths_text_def detail_empty_text_def)

end
